theory Spec2Isabelle
  imports Main "HOL-Library.Sublist"
begin


section \<open>The reference interpreter (leap/vm/exec\_numpy.py)\<close>

subsection \<open>Data model\<close>

text \<open>
  Python exceptions are values. \<open>FailStepException\<close> is the step-rejection signal;
  \<open>UserError c m\<close> is \<open>insn.error_condition(insn.error_message)\<close> of a \<open>Raise\<close>.
\<close>

datatype error =
    FailStepException
  | ValueError string
  | KeyError string
  | AttributeError string
  | UserError string string
  | EvalError string

type_synonym 'v context_map = "string \<Rightarrow> 'v option"

text \<open>
  Expressions are opaque trees evaluated by the external \<open>EvaluationMapper\<close> against the
  context and the function map; an expression is represented by its evaluation, which
  may raise.
\<close>

type_synonym 'v expr = "'v context_map \<Rightarrow> error + 'v"

text \<open>The external solver collaborator: \<open>solve(expression, solve_component, context, functions, guess)\<close>.\<close>

type_synonym 'v solver = "'v expr \<Rightarrow> string \<Rightarrow> 'v context_map \<Rightarrow> 'v \<Rightarrow> error + 'v"

datatype 'v insn =
    AssignSolved string "'v expr" string string "'v expr"
  | YieldState "'v expr" string "'v expr" string
  | AssignExpression string "'v expr"
  | Raise string string
  | FailStep
  | If_insn "'v expr" "string list" "string list"
  | Nop
  | StateTransition string

record 'v instruction =
  insn_id :: string
  depends_on :: "string list"
  body :: "'v insn"

record pstate =
  st_depends_on :: "string list"
  st_next_state :: string

record 'v code =
  instructions :: "'v instruction list"
  states :: "string \<Rightarrow> pstate option"
  initial_state :: string

datatype 'v event =
    StateComputed 'v string string 'v
  | StepCompleted 'v string string
  | StepFailed 'v

record 'v interp =
  solvers :: "string \<Rightarrow> 'v solver option"
  ctx :: "'v context_map"
  next_state :: string

subsection \<open>set\_up\<close>

text \<open>
  \<open>state_values\<close> is a dict, given as the list of its items in iteration order. The
  context is mutated entry by entry, so a rejected key leaves the earlier entries seeded;
  the result carries the context reached together with the error, if any.
\<close>

fun set_up_loop :: "(string \<times> 'v) list \<Rightarrow> 'v context_map \<Rightarrow> error option \<times> 'v context_map" where
  "set_up_loop [] cx = (None, cx)"
| "set_up_loop ((key, val) # rest) cx =
     (if prefix ''<'' key
      then (Some (ValueError ''state variables may not start with '<' ''), cx)
      else set_up_loop rest (cx((''<state>'' @ key) \<mapsto> val)))"

definition set_up :: "'v \<Rightarrow> 'v \<Rightarrow> (string \<times> 'v) list \<Rightarrow> 'v interp \<Rightarrow> error option \<times> 'v interp" where
  "set_up t_start dt_start state_values self =
     (let ctx1 = (ctx self)(''<t>'' \<mapsto> t_start);
          ctx2 = ctx1(''<dt>'' \<mapsto> dt_start);
          (err, ctx3) = set_up_loop state_values ctx2
      in (err, self\<lparr>ctx := ctx3\<rparr>))"

subsection \<open>Execution methods\<close>

text \<open>
  Each \<open>exec_*\<close> handler returns what the Python handler returns (\<open>None\<close>, or a pair of an
  optional event and a list of newly required instruction ids) and the interpreter after
  the call, or the exception it raises.
\<close>

type_synonym 'v exec_result = "error + (('v event option \<times> string list) option \<times> 'v interp)"

definition exec_AssignSolved ::
  "string \<Rightarrow> 'v expr \<Rightarrow> string \<Rightarrow> string \<Rightarrow> 'v expr \<Rightarrow> 'v interp \<Rightarrow> 'v exec_result" where
  "exec_AssignSolved assignee expression solve_component solver_id guess_expr self =
     (case guess_expr (ctx self) of
        Inl e \<Rightarrow> Inl e
      | Inr guess \<Rightarrow>
          (case solvers self solver_id of
             None \<Rightarrow> Inl (KeyError solver_id)
           | Some solver \<Rightarrow>
               (case solver expression solve_component (ctx self) guess of
                  Inl e \<Rightarrow> Inl e
                | Inr result \<Rightarrow>
                    Inr (None, self\<lparr>ctx := (ctx self)(assignee \<mapsto> result)\<rparr>))))"

definition exec_YieldState ::
  "'v expr \<Rightarrow> string \<Rightarrow> 'v expr \<Rightarrow> string \<Rightarrow> 'v interp \<Rightarrow> 'v exec_result" where
  "exec_YieldState expression component_id time time_id self =
     (case time (ctx self) of
        Inl e \<Rightarrow> Inl e
      | Inr t \<Rightarrow>
          (case expression (ctx self) of
             Inl e \<Rightarrow> Inl e
           | Inr state_component \<Rightarrow>
               Inr (Some (Some (StateComputed t time_id component_id state_component), []),
                    self)))"

definition exec_AssignExpression :: "string \<Rightarrow> 'v expr \<Rightarrow> 'v interp \<Rightarrow> 'v exec_result" where
  "exec_AssignExpression assignee expression self =
     (case expression (ctx self) of
        Inl e \<Rightarrow> Inl e
      | Inr v \<Rightarrow> Inr (None, self\<lparr>ctx := (ctx self)(assignee \<mapsto> v)\<rparr>))"

definition exec_Raise :: "string \<Rightarrow> string \<Rightarrow> 'v interp \<Rightarrow> 'v exec_result" where
  "exec_Raise error_condition error_message self = Inl (UserError error_condition error_message)"

definition exec_FailStep :: "'v interp \<Rightarrow> 'v exec_result" where
  "exec_FailStep self = Inl FailStepException"

text \<open>Python truthiness of a number: nonzero.\<close>

definition exec_If ::
  "('v::zero) expr \<Rightarrow> string list \<Rightarrow> string list \<Rightarrow> 'v interp \<Rightarrow> 'v exec_result" where
  "exec_If condition then_depends_on else_depends_on self =
     (case condition (ctx self) of
        Inl e \<Rightarrow> Inl e
      | Inr c \<Rightarrow>
          (if c \<noteq> 0 then Inr (Some (None, then_depends_on), self)
           else Inr (Some (None, else_depends_on), self)))"

definition exec_Nop :: "'v interp \<Rightarrow> 'v exec_result" where
  "exec_Nop self = Inr (None, self)"


text \<open>
  The method table of the class: \<open>getattr(self, "exec_" + kind)\<close>. The class defines
  no handler for \<open>StateTransition\<close>.
\<close>

definition exec_method :: "('v::zero) insn \<Rightarrow> ('v interp \<Rightarrow> 'v exec_result) option" where
  "exec_method i =
     (case i of
        AssignSolved assignee expression solve_component solver_id guess \<Rightarrow>
          Some (exec_AssignSolved assignee expression solve_component solver_id guess)
      | YieldState expression component_id time time_id \<Rightarrow>
          Some (exec_YieldState expression component_id time time_id)
      | AssignExpression assignee expression \<Rightarrow> Some (exec_AssignExpression assignee expression)
      | Raise error_condition error_message \<Rightarrow> Some (exec_Raise error_condition error_message)
      | FailStep \<Rightarrow> Some exec_FailStep
      | If_insn condition then_depends_on else_depends_on \<Rightarrow>
          Some (exec_If condition then_depends_on else_depends_on)
      | Nop \<Rightarrow> Some exec_Nop
      | StateTransition target_state \<Rightarrow> None)"

subsection \<open>The execution controller\<close>

text \<open>
  Modelled from the spec: the class \<open>ExecutionController\<close> of \<open>leap.vm.language\<close> is
  not among the sources. Following section 4.1 of the specification, a run of the
  controller repeatedly selects, among the required and not yet executed instructions,
  the first one in insertion order whose whole dependency set is satisfied, dispatches it
  to the executor by its variant (\<open>exec_<Kind>\<close>) and records its id as satisfied; the
  dependencies of a required instruction are required; an \<open>If\<close> returns the dependency
  set that becomes newly required; a \<open>YieldState\<close> produces an event; an exception of
  the executor aborts the run and is not caught. The controller is a generator: the
  events are produced one by one as the instructions are dispatched, so the events
  dispatched before an exception have been handed to the caller when it is raised. The
  result is the list of events produced, the exception that ended the run (if any) and
  the interpreter reached.
\<close>

definition deps_of :: "'v code \<Rightarrow> string \<Rightarrow> string list" where
  "deps_of code i =
     (case find (\<lambda>ins. insn_id ins = i) (instructions code) of
        None \<Rightarrow> []
      | Some ins \<Rightarrow> depends_on ins)"

definition required_ids :: "'v code \<Rightarrow> string list \<Rightarrow> string list" where
  "required_ids code plan =
     ((\<lambda>r. remdups (r @ concat (map (deps_of code) r))) ^^ length (instructions code)) plan"

definition find_ready :: "'v code \<Rightarrow> string list \<Rightarrow> string list \<Rightarrow> 'v instruction option" where
  "find_ready code plan executed =
     find (\<lambda>ins. insn_id ins \<in> set (required_ids code plan)
                \<and> insn_id ins \<notin> set executed
                \<and> set (depends_on ins) \<subseteq> set executed)
          (instructions code)"

definition dispatch :: "('v::zero) instruction \<Rightarrow> 'v interp \<Rightarrow> 'v exec_result" where
  "dispatch ins self =
     (case exec_method (body ins) of
        None \<Rightarrow> Inl (AttributeError ''exec_StateTransition'')
      | Some handler \<Rightarrow> handler self)"

definition unexecuted :: "'v code \<Rightarrow> string list \<Rightarrow> 'v instruction list" where
  "unexecuted code executed = filter (\<lambda>ins. insn_id ins \<notin> set executed) (instructions code)"

lemma find_ready_unexecuted:
  assumes "find_ready code plan executed = Some ins"
  shows "length (unexecuted code (insn_id ins # executed)) < length (unexecuted code executed)"
proof -
  from assms have mem: "ins \<in> set (instructions code)" and fresh: "insn_id ins \<notin> set executed"
    by (auto simp: find_ready_def find_Some_iff)
  have "unexecuted code (insn_id ins # executed)
        = filter (\<lambda>j. insn_id j \<noteq> insn_id ins) (unexecuted code executed)"
    by (simp add: unexecuted_def conj_commute)
  moreover have "ins \<in> set (unexecuted code executed)"
    using mem fresh by (simp add: unexecuted_def)
  ultimately show ?thesis
    by (simp add: length_filter_less)
qed

function exec_controller ::
  "('v::zero) code \<Rightarrow> string list \<Rightarrow> string list \<Rightarrow> 'v interp
   \<Rightarrow> 'v event list \<times> error option \<times> 'v interp" where
  "exec_controller code plan executed self =
     (case find_ready code plan executed of
        None \<Rightarrow> ([], None, self)
      | Some ins \<Rightarrow>
          (case dispatch ins self of
             Inl e \<Rightarrow> ([], Some e, self)
           | Inr (result, self') \<Rightarrow>
               (let (event, new_deps) = (case result of None \<Rightarrow> (None, []) | Some r \<Rightarrow> r);
                    (evs, exc, self'') =
                       exec_controller code (plan @ new_deps) (insn_id ins # executed) self'
                in ((case event of None \<Rightarrow> [] | Some ev \<Rightarrow> [ev]) @ evs, exc, self''))))"
  by pat_completeness auto
termination
  by (relation "measure (\<lambda>(code, plan, executed, self). length (unexecuted code executed))")
     (auto simp: find_ready_unexecuted)

declare exec_controller.simps [simp del]

subsection \<open>run\_single\_step and run\<close>

text \<open>The \<open>finally\<close> clause of \<open>run_single_step\<close>: discard non-permanent per-step state.\<close>

definition discard_transient :: "'v context_map \<Rightarrow> 'v context_map" where
  "discard_transient c =
     (\<lambda>name. if \<not> prefix ''<state>'' name \<and> \<not> prefix ''<p>'' name
                  \<and> name \<notin> set [''<t>'', ''<dt>'']
              then None else c name)"

text \<open>
  \<open>run_single_step\<close> is a generator; its result is the list of events it yields, the
  exception that leaves it (if any), and the interpreter after its \<open>finally\<close> clause.
\<close>

definition run_single_step ::
  "('v::zero) code \<Rightarrow> 'v interp \<Rightarrow> 'v event list \<times> error option \<times> 'v interp" where
  "run_single_step code self =
     (let (evs, exc, self') =
        (case states code (next_state self) of
           None \<Rightarrow> ([], Some (KeyError (next_state self)), self)
         | Some cur_state \<Rightarrow>
             exec_controller code (st_depends_on cur_state) []
               (self\<lparr>next_state := st_next_state cur_state\<rparr>))
      in (evs, exc, self'\<lparr>ctx := discard_transient (ctx self')\<rparr>))"

text \<open>
  \<open>run\<close> loops until one of its two guards returns, or for ever. \<open>run_loop k\<close> performs
  at most \<open>k\<close> iterations of the \<open>while True\<close> loop and reports the events yielded, how
  the run stands after them, and the interpreter: \<open>Returned\<close> when a guard ended the
  generator, \<open>Raised e\<close> when an exception left it, \<open>Running\<close> when \<open>k\<close> iterations did
  not end it.
\<close>

datatype run_status = Returned | Raised error | Running

definition lookup_t :: "'v interp \<Rightarrow> error + 'v" where
  "lookup_t self = (case ctx self ''<t>'' of None \<Rightarrow> Inl (KeyError ''<t>'') | Some t \<Rightarrow> Inr t)"

definition t_end_reached :: "('v::linorder) option \<Rightarrow> 'v interp \<Rightarrow> error + bool" where
  "t_end_reached t_end self =
     (case t_end of
        None \<Rightarrow> Inr False
      | Some te \<Rightarrow> (case lookup_t self of Inl e \<Rightarrow> Inl e | Inr t \<Rightarrow> Inr (t \<ge> te)))"

definition max_steps_reached :: "int option \<Rightarrow> int \<Rightarrow> bool" where
  "max_steps_reached max_steps n_steps =
     (case max_steps of None \<Rightarrow> False | Some m \<Rightarrow> n_steps \<ge> m)"

fun run_loop ::
  "nat \<Rightarrow> ('v::{zero,linorder}) code \<Rightarrow> 'v option \<Rightarrow> int option \<Rightarrow> int \<Rightarrow> 'v interp
   \<Rightarrow> 'v event list \<times> run_status \<times> 'v interp" where
  "run_loop 0 code t_end max_steps n_steps self = ([], Running, self)"
| "run_loop (Suc k) code t_end max_steps n_steps self =
     (case t_end_reached t_end self of
        Inl e \<Rightarrow> ([], Raised e, self)
      | Inr True \<Rightarrow> ([], Returned, self)
      | Inr False \<Rightarrow>
          (if max_steps_reached max_steps n_steps then ([], Returned, self)
           else
             (let cur_state = next_state self;
                  (evs, exc, self1) = run_single_step code self
              in (case exc of
                    Some FailStepException \<Rightarrow>
                      (case lookup_t self1 of
                         Inl e \<Rightarrow> (evs, Raised e, self1)
                       | Inr t \<Rightarrow>
                           (let (evs', r, self2) =
                                  run_loop k code t_end max_steps n_steps self1
                            in (evs @ [StepFailed t] @ evs', r, self2)))
                  | Some e \<Rightarrow> (evs, Raised e, self1)
                  | None \<Rightarrow>
                      (case lookup_t self1 of
                         Inl e \<Rightarrow> (evs, Raised e, self1)
                       | Inr t \<Rightarrow>
                           (let (evs', r, self2) =
                                  run_loop k code t_end max_steps (n_steps + 1) self1
                            in (evs @ [StepCompleted t cur_state (next_state self1)] @ evs',
                                r, self2)))))))"

text \<open>\<open>run\<close> starts with \<open>n_steps = 0\<close>.\<close>

definition run ::
  "nat \<Rightarrow> ('v::{zero,linorder}) code \<Rightarrow> 'v option \<Rightarrow> int option \<Rightarrow> 'v interp
   \<Rightarrow> 'v event list \<times> run_status \<times> 'v interp" where
  "run k code t_end max_steps self = run_loop k code t_end max_steps 0 self"

subsection \<open>Example programs\<close>

definition Variable_expr :: "string \<Rightarrow> 'v expr" where
  "Variable_expr name c = (case c name of None \<Rightarrow> Inl (KeyError name) | Some v \<Rightarrow> Inr v)"

definition Constant_expr :: "'v \<Rightarrow> 'v expr" where
  "Constant_expr v c = Inr v"

definition Sum_expr :: "('v::plus) expr \<Rightarrow> 'v expr \<Rightarrow> 'v expr" where
  "Sum_expr a b c =
     (case a c of Inl e \<Rightarrow> Inl e
      | Inr x \<Rightarrow> (case b c of Inl e \<Rightarrow> Inl e | Inr y \<Rightarrow> Inr (x + y)))"

text \<open>
  A two-state program: \<open>initialization\<close> sets a persistent variable; \<open>primary\<close> adds one
  to the state component through a transient variable, advances the time and yields.
\<close>

definition stepping_code :: "int code" where
  "stepping_code =
     \<lparr>instructions =
        [\<lparr>insn_id = ''init'', depends_on = [],
          body = AssignExpression ''<p>k'' (Constant_expr 1)\<rparr>,
         \<lparr>insn_id = ''tmp'', depends_on = [],
          body = AssignExpression ''tmp'' (Sum_expr (Variable_expr ''<state>x'') (Variable_expr ''<p>k''))\<rparr>,
         \<lparr>insn_id = ''upd'', depends_on = [''tmp''],
          body = AssignExpression ''<state>x'' (Variable_expr ''tmp'')\<rparr>,
         \<lparr>insn_id = ''adv'', depends_on = [''upd''],
          body = AssignExpression ''<t>'' (Sum_expr (Variable_expr ''<t>'') (Variable_expr ''<dt>''))\<rparr>,
         \<lparr>insn_id = ''yield'', depends_on = [''adv''],
          body = YieldState (Variable_expr ''<state>x'') ''x'' (Variable_expr ''<t>'') ''final''\<rparr>],
      states =
        [''initialization'' \<mapsto> \<lparr>st_depends_on = [''init''], st_next_state = ''primary''\<rparr>,
         ''primary'' \<mapsto> \<lparr>st_depends_on = [''yield''], st_next_state = ''primary''\<rparr>],
      initial_state = ''initialization''\<rparr>"

text \<open>A program whose only state advances the time, yields the state and then rejects the step.\<close>

definition rejecting_code :: "int code" where
  "rejecting_code =
     \<lparr>instructions =
        [\<lparr>insn_id = ''adv'', depends_on = [],
          body = AssignExpression ''<t>'' (Sum_expr (Variable_expr ''<t>'') (Variable_expr ''<dt>''))\<rparr>,
         \<lparr>insn_id = ''yield'', depends_on = [''adv''],
          body = YieldState (Variable_expr ''<state>x'') ''x'' (Variable_expr ''<t>'') ''final''\<rparr>,
         \<lparr>insn_id = ''fail'', depends_on = [''yield''], body = FailStep\<rparr>],
      states = [''primary'' \<mapsto> \<lparr>st_depends_on = [''fail''], st_next_state = ''primary''\<rparr>],
      initial_state = ''primary''\<rparr>"

text \<open>\<open>__init__\<close>: an empty context, the initial state of the code as next state.\<close>

definition NumpyInterpreter :: "'v code \<Rightarrow> (string \<Rightarrow> 'v solver option) \<Rightarrow> 'v interp" where
  "NumpyInterpreter code solver_map =
     \<lparr>solvers = solver_map, ctx = Map.empty, next_state = initial_state code\<rparr>"

text \<open>The interpreter of a code after \<open>set_up(t_start=0, dt_start=1, state={"x": 5})\<close>.\<close>

definition started :: "int code \<Rightarrow> int interp" where
  "started code = snd (set_up 0 1 [(''x'', 5)] (NumpyInterpreter code Map.empty))"

subsection \<open>Classifying events\<close>

definition is_StateComputed :: "'v event \<Rightarrow> bool" where
  "is_StateComputed ev = (case ev of StateComputed t time_id component_id y \<Rightarrow> True | _ \<Rightarrow> False)"

definition is_StepCompleted :: "'v event \<Rightarrow> bool" where
  "is_StepCompleted ev = (case ev of StepCompleted t cur nxt \<Rightarrow> True | _ \<Rightarrow> False)"

definition is_StepFailed :: "'v event \<Rightarrow> bool" where
  "is_StepFailed ev = (case ev of StepFailed t \<Rightarrow> True | _ \<Rightarrow> False)"

text \<open>The names that survive the \<open>finally\<close> clause of \<open>run_single_step\<close>.\<close>

definition permanent :: "string \<Rightarrow> bool" where
  "permanent name \<longleftrightarrow>
     prefix ''<state>'' name \<or> prefix ''<p>'' name \<or> name = ''<t>'' \<or> name = ''<dt>''"

section \<open>The Fortran code generator (leap/vm/codegen/fortran.py)\<close>

subsection \<open>Generated code\<close>

text \<open>
  The generator writes Fortran text. The generated statements are kept as syntax trees:
  each constructor stands for the line (or, for \<open>IfThenElse\<close>, the
  \<open>FortranIfEmitter\<close> block with its optional \<open>else\<close> part) that the generator emits.

  Fortran identifiers: \<open>Named symb\<close> is \<open>name_manager[symb]\<close>, \<open>Refcnt_of f\<close> is the
  reference-count pointer \<open>leap_refcnt_f\<close> that belongs to \<open>f\<close>, and \<open>Unique prefix n\<close>
  is the \<open>n\<close>-th identifier made by \<open>make_unique_fortran_name(prefix)\<close>. The name
  manager gives distinct names to distinct keys, as the constructors do.
\<close>

datatype fname = Named string | Unique string nat | Refcnt_of fname

definition name_refcount :: "string \<Rightarrow> fname" where
  "name_refcount symb = Refcnt_of (Named symb)"

text \<open>Expressions of the intermediate code (pymbolic): what the generator inspects.\<close>

datatype 'v expr_tree =
    Variable string
  | Constant 'v
  | Call string "'v expr_tree list"
  | Compound string "'v expr_tree list"

datatype symbol_kind = Boolean | Scalar bool | ODEComponent string

record FortranType =
  base_type :: string
  dimension :: "string list"

datatype cond =
    Associated fname
  | Not_associated fname
  | Refcnt_eq_1 fname
  | Refcnt_ne_1 fname
  | Ierr_ne_0

datatype 'v stmt =
    Nullify fname
  | Allocate fname "string list"
  | Deallocate fname
  | Pointer_assign fname fname
  | Refcnt_set fname int
  | Refcnt_add fname int
  | Assign fname "'v expr_tree"
  | Call_assign fname "'v expr_tree"
  | IfThenElse cond "'v stmt list" "'v stmt list"
  | Write string
  | Stop
  | Blank

datatype decl = Declare_pointer fname | Declare_variable fname

datatype gen_error = KeyError_component string | AssertionError_kind | ValueError_kind

subsection \<open>Emitters of the data management\<close>

text \<open>\<open>emit_traceable\<close>: with tracing on, a \<open>write\<close> of the line precedes the line.\<close>

definition emit_trace :: "bool \<Rightarrow> string \<Rightarrow> 'v stmt list" where
  "emit_trace trace line = (if trace then [Write line] else [])"

definition emit_traceable :: "bool \<Rightarrow> string \<Rightarrow> 'v stmt \<Rightarrow> 'v stmt list" where
  "emit_traceable trace line st = emit_trace trace line @ [st]"

definition emit_variable_init :: "bool \<Rightarrow> string \<Rightarrow> symbol_kind \<Rightarrow> 'v stmt list" where
  "emit_variable_init trace name sym_kind =
     (case sym_kind of
        ODEComponent component_id \<Rightarrow> emit_traceable trace ''nullify'' (Nullify (Named name))
      | _ \<Rightarrow> [])"

definition emit_variable_deinit :: "bool \<Rightarrow> string \<Rightarrow> symbol_kind \<Rightarrow> 'v stmt list" where
  "emit_variable_deinit trace name sym_kind =
     (let fortran_name = Named name; refcnt_name = name_refcount name
      in case sym_kind of
           ODEComponent component_id \<Rightarrow>
             [IfThenElse (Associated fortran_name)
                [IfThenElse (Refcnt_eq_1 refcnt_name)
                   (emit_traceable trace ''deallocate'' (Deallocate fortran_name)
                    @ emit_traceable trace ''deallocate'' (Deallocate refcnt_name)
                    @ emit_traceable trace ''nullify'' (Nullify fortran_name))
                   (emit_traceable trace ''refcnt - 1'' (Refcnt_add refcnt_name (- 1)))]
                []]
         | _ \<Rightarrow> [])"

text \<open>
  \<open>emit_allocation\<close> looks the component type up in \<open>ode_component_type_map\<close>
  (a \<open>KeyError\<close> when it is not declared).
\<close>

definition emit_allocation ::
  "(string \<Rightarrow> FortranType option) \<Rightarrow> bool \<Rightarrow> fname \<Rightarrow> string
   \<Rightarrow> gen_error + 'v stmt list" where
  "emit_allocation ode_component_type_map trace fortran_name component_id =
     (case ode_component_type_map component_id of
        None \<Rightarrow> Inl (KeyError_component component_id)
      | Some comp_type \<Rightarrow>
          Inr (emit_traceable trace ''allocate'' (Allocate fortran_name (dimension comp_type))
               @ [IfThenElse Ierr_ne_0 [Write ''failed to allocate'', Stop] []]))"

definition emit_allocate_refcount :: "bool \<Rightarrow> string \<Rightarrow> 'v stmt list" where
  "emit_allocate_refcount trace symb =
     (let refcnt_name = name_refcount symb
      in emit_traceable trace ''allocate'' (Allocate refcnt_name [])
         @ [IfThenElse Ierr_ne_0 [Write ''failed to allocate'', Stop] []]
         @ emit_traceable trace ''refcnt = 1'' (Refcnt_set refcnt_name 1))"

definition emit_refcounted_allocation ::
  "(string \<Rightarrow> FortranType option) \<Rightarrow> bool \<Rightarrow> string \<Rightarrow> symbol_kind
   \<Rightarrow> gen_error + 'v stmt list" where
  "emit_refcounted_allocation ode_component_type_map trace symb sym_kind =
     (case sym_kind of
        ODEComponent component_id \<Rightarrow>
          (case emit_allocation ode_component_type_map trace (Named symb) component_id of
             Inl e \<Rightarrow> Inl e
           | Inr code \<Rightarrow> Inr (code @ emit_allocate_refcount trace symb))
      | _ \<Rightarrow> Inr [])"

definition emit_allocation_check ::
  "(string \<Rightarrow> FortranType option) \<Rightarrow> bool \<Rightarrow> string \<Rightarrow> symbol_kind
   \<Rightarrow> gen_error + 'v stmt list" where
  "emit_allocation_check ode_component_type_map trace symb sym_kind =
     (case sym_kind of
        ODEComponent component_id \<Rightarrow>
          (case emit_refcounted_allocation ode_component_type_map trace symb sym_kind of
             Inl e \<Rightarrow> Inl e
           | Inr alloc \<Rightarrow>
               Inr [IfThenElse (Not_associated (Named symb))
                      alloc
                      [IfThenElse (Refcnt_ne_1 (name_refcount symb))
                         (emit_traceable trace ''refcnt - 1'' (Refcnt_add (name_refcount symb) (- 1))
                          @ [Blank] @ alloc)
                         []]])
      | _ \<Rightarrow> Inl AssertionError_kind)"

text \<open>
  \<open>emit_ode_component_move\<close> is called with \<open>expr\<close> a \<open>Variable\<close>; \<open>expr_name\<close> is
  \<open>expr.name\<close>.
\<close>

definition emit_ode_component_move ::
  "bool \<Rightarrow> string \<Rightarrow> fname \<Rightarrow> symbol_kind \<Rightarrow> string \<Rightarrow> 'v stmt list" where
  "emit_ode_component_move trace assignee_sym assignee_fortran_name sym_kind expr_name =
     emit_variable_deinit trace assignee_sym sym_kind
     @ emit_traceable trace ''=>'' (Pointer_assign assignee_fortran_name (Named expr_name))
     @ emit_traceable trace ''=>''
         (Pointer_assign (name_refcount assignee_sym) (name_refcount expr_name))
     @ emit_traceable trace ''refcnt + 1'' (Refcnt_add (name_refcount assignee_sym) 1)
     @ [Blank]"

text \<open>
  \<open>emit_assign_expr_inner\<close>: a call is lowered through the call-code provider of the
  function registry, anything else to \<open>name = expr\<close>; a blank line follows.
\<close>

definition emit_assign_expr_inner :: "bool \<Rightarrow> fname \<Rightarrow> 'v expr_tree \<Rightarrow> 'v stmt list" where
  "emit_assign_expr_inner trace assignee_fortran_name expr =
     (case expr of
        Call f parameters \<Rightarrow>
          emit_trace trace ''func call'' @ [Call_assign assignee_fortran_name expr]
      | _ \<Rightarrow> emit_trace trace ''='' @ [Assign assignee_fortran_name expr])
     @ [Blank]"

text \<open>
  \<open>emit_variable_decl\<close>, for what the claims need: a pointer with its reference count
  for an ODE component that is not an argument, a plain variable otherwise.
\<close>

definition emit_variable_decl ::
  "(string \<Rightarrow> FortranType option) \<Rightarrow> fname \<Rightarrow> symbol_kind \<Rightarrow> gen_error + decl list" where
  "emit_variable_decl ode_component_type_map fortran_name sym_kind =
     (case sym_kind of
        Boolean \<Rightarrow> Inr [Declare_variable fortran_name]
      | Scalar is_real_valued \<Rightarrow> Inr [Declare_variable fortran_name]
      | ODEComponent component_id \<Rightarrow>
          (case ode_component_type_map component_id of
             None \<Rightarrow> Inl (KeyError_component component_id)
           | Some comp_type \<Rightarrow>
               Inr [Declare_pointer (Refcnt_of fortran_name), Declare_pointer fortran_name]))"

text \<open>
  \<open>emit_assign_expr\<close>. \<open>dependencies\<close> is the external \<open>DependencyMapper\<close>: the set of
  variables it reports for the expression; \<open>unique\<close> is the state of the unique-name
  generator. The result is the declarations sent to the declaration emitter and the
  code sent to the body.
\<close>

definition emit_assign_expr ::
  "(string \<Rightarrow> FortranType option) \<Rightarrow> bool \<Rightarrow> (string \<Rightarrow> symbol_kind)
   \<Rightarrow> ('v expr_tree \<Rightarrow> string set) \<Rightarrow> nat \<Rightarrow> string \<Rightarrow> 'v expr_tree
   \<Rightarrow> gen_error + decl list \<times> 'v stmt list" where
  "emit_assign_expr ode_component_type_map trace sym_kind_table dependencies unique
       assignee_sym expr =
     (let assignee_fortran_name = Named assignee_sym;
          sym_kind = sym_kind_table assignee_sym
      in case sym_kind of
           ODEComponent component_id \<Rightarrow>
             (case expr of
                Variable name \<Rightarrow>
                  Inr ([], emit_ode_component_move trace assignee_sym assignee_fortran_name
                             sym_kind name)
              | _ \<Rightarrow>
                  if assignee_sym \<notin> dependencies expr then
                    (case emit_allocation_check ode_component_type_map trace assignee_sym sym_kind of
                       Inl e \<Rightarrow> Inl e
                     | Inr chk \<Rightarrow>
                         Inr ([], chk @ emit_assign_expr_inner trace assignee_fortran_name expr))
                  else
                    (let refcnt_name = name_refcount assignee_sym;
                         temp_assignee_name = Unique (''tmp_'' @ assignee_sym) unique
                     in case emit_variable_decl ode_component_type_map temp_assignee_name sym_kind of
                          Inl e \<Rightarrow> Inl e
                        | Inr decls \<Rightarrow>
                            (case emit_allocation ode_component_type_map trace
                                    temp_assignee_name component_id of
                               Inl e \<Rightarrow> Inl e
                             | Inr alloc \<Rightarrow>
                                 Inr (decls,
                                      alloc
                                      @ emit_assign_expr_inner trace temp_assignee_name expr
                                      @ [IfThenElse (Refcnt_eq_1 refcnt_name)
                                           (emit_traceable trace ''deallocate''
                                              (Deallocate assignee_fortran_name)
                                            @ [Pointer_assign assignee_fortran_name
                                                 temp_assignee_name])
                                           (emit_traceable trace ''refcnt - 1''
                                              (Refcnt_add refcnt_name (- 1))
                                            @ [Pointer_assign assignee_fortran_name
                                                 temp_assignee_name]
                                            @ emit_allocate_refcount trace assignee_sym)]))))
         | _ \<Rightarrow> Inr ([], emit_assign_expr_inner trace assignee_fortran_name expr))"

subsection \<open>Meaning of the generated code\<close>

text \<open>
  A store for the generated statements. Pointers (\<open>pointer_decl\<close>) are disassociated
  (\<open>None\<close>) or hold the address of their target; other variables hold a value. The heap
  maps the addresses of the allocated targets to an array (an ODE component value) or a
  reference count, either possibly not yet defined. Addresses are handed out in
  increasing order and never reused, \<open>avail\<close> is the number of allocations that can
  still succeed, and \<open>deallocated\<close> logs every \<open>deallocate\<close>, latest first.
\<close>

datatype 'v cell = Array "'v option" | Count "int option"

record 'v fstate =
  pointer_decl :: "fname \<Rightarrow> bool"
  assoc :: "fname \<Rightarrow> nat option"
  scalars :: "fname \<Rightarrow> 'v option"
  heap :: "nat \<Rightarrow> 'v cell option"
  next_addr :: nat
  avail :: nat
  leap_ierr :: int
  deallocated :: "nat list"

text \<open>
  A statement ends normally, stops the program (\<open>stop\<close>), or faults: it uses a
  disassociated or dangling pointer or an undefined value.
\<close>

datatype 'a outcome = Normal 'a | Stopped 'a | Fault

definition read_var :: "'v fstate \<Rightarrow> fname \<Rightarrow> 'v option" where
  "read_var s f =
     (if pointer_decl s f
      then (case assoc s f of
              None \<Rightarrow> None
            | Some a \<Rightarrow> (case heap s a of Some (Array (Some v)) \<Rightarrow> Some v | _ \<Rightarrow> None))
      else scalars s f)"

definition read_count :: "'v fstate \<Rightarrow> fname \<Rightarrow> int option" where
  "read_count s r =
     (case assoc s r of
        None \<Rightarrow> None
      | Some c \<Rightarrow> (case heap s c of Some (Count (Some n)) \<Rightarrow> Some n | _ \<Rightarrow> None))"

text \<open>
  The value of an expression in a store; \<open>fun_sem\<close> gives the meaning of the external
  functions and of the operators.
\<close>

fun eval_expr ::
  "(string \<Rightarrow> 'v list \<Rightarrow> 'v option) \<Rightarrow> 'v fstate \<Rightarrow> 'v expr_tree \<Rightarrow> 'v option" where
  "eval_expr fun_sem s (Variable name) = read_var s (Named name)"
| "eval_expr fun_sem s (Constant v) = Some v"
| "eval_expr fun_sem s (Call f parameters) =
     (case those (map (eval_expr fun_sem s) parameters) of
        None \<Rightarrow> None
      | Some vs \<Rightarrow> fun_sem f vs)"
| "eval_expr fun_sem s (Compound opr children) =
     (case those (map (eval_expr fun_sem s) children) of
        None \<Rightarrow> None
      | Some vs \<Rightarrow> fun_sem opr vs)"

fun eval_cond :: "cond \<Rightarrow> 'v fstate \<Rightarrow> bool option" where
  "eval_cond (Associated f) s = Some (assoc s f \<noteq> None)"
| "eval_cond (Not_associated f) s = Some (assoc s f = None)"
| "eval_cond (Refcnt_eq_1 r) s = map_option (\<lambda>n. n = 1) (read_count s r)"
| "eval_cond (Refcnt_ne_1 r) s = map_option (\<lambda>n. n \<noteq> 1) (read_count s r)"
| "eval_cond Ierr_ne_0 s = Some (leap_ierr s \<noteq> 0)"

definition fresh_cell :: "fname \<Rightarrow> 'v cell" where
  "fresh_cell f = (case f of Refcnt_of g \<Rightarrow> Count None | _ \<Rightarrow> Array None)"

definition allocate :: "fname \<Rightarrow> 'v fstate \<Rightarrow> 'v fstate outcome" where
  "allocate f s =
     (if avail s = 0 then Normal (s\<lparr>leap_ierr := 1\<rparr>)
      else Normal (s\<lparr>assoc := (assoc s)(f \<mapsto> next_addr s),
                     heap := (heap s)(next_addr s \<mapsto> fresh_cell f),
                     next_addr := Suc (next_addr s),
                     avail := avail s - 1,
                     leap_ierr := 0\<rparr>))"

definition deallocate :: "fname \<Rightarrow> 'v fstate \<Rightarrow> 'v fstate outcome" where
  "deallocate f s =
     (case assoc s f of
        None \<Rightarrow> Fault
      | Some a \<Rightarrow>
          (case heap s a of
             None \<Rightarrow> Fault
           | Some c \<Rightarrow>
               Normal (s\<lparr>assoc := (assoc s)(f := None),
                         heap := (heap s)(a := None),
                         avail := Suc (avail s),
                         deallocated := a # deallocated s\<rparr>)))"

definition refcnt_set :: "fname \<Rightarrow> int \<Rightarrow> 'v fstate \<Rightarrow> 'v fstate outcome" where
  "refcnt_set r n s =
     (case assoc s r of
        None \<Rightarrow> Fault
      | Some c \<Rightarrow>
          (case heap s c of
             Some (Count old) \<Rightarrow> Normal (s\<lparr>heap := (heap s)(c \<mapsto> Count (Some n))\<rparr>)
           | _ \<Rightarrow> Fault))"

definition refcnt_add :: "fname \<Rightarrow> int \<Rightarrow> 'v fstate \<Rightarrow> 'v fstate outcome" where
  "refcnt_add r k s =
     (case assoc s r of
        None \<Rightarrow> Fault
      | Some c \<Rightarrow>
          (case heap s c of
             Some (Count (Some n)) \<Rightarrow> Normal (s\<lparr>heap := (heap s)(c \<mapsto> Count (Some (n + k)))\<rparr>)
           | _ \<Rightarrow> Fault))"

definition assign :: "fname \<Rightarrow> 'v option \<Rightarrow> 'v fstate \<Rightarrow> 'v fstate outcome" where
  "assign f value s =
     (case value of
        None \<Rightarrow> Fault
      | Some v \<Rightarrow>
          if pointer_decl s f
          then (case assoc s f of
                  None \<Rightarrow> Fault
                | Some a \<Rightarrow>
                    (case heap s a of
                       Some (Array old) \<Rightarrow> Normal (s\<lparr>heap := (heap s)(a \<mapsto> Array (Some v))\<rparr>)
                     | _ \<Rightarrow> Fault))
          else Normal (s\<lparr>scalars := (scalars s)(f \<mapsto> v)\<rparr>))"

fun exec_stmt ::
  "(string \<Rightarrow> 'v list \<Rightarrow> 'v option) \<Rightarrow> 'v stmt \<Rightarrow> 'v fstate \<Rightarrow> 'v fstate outcome"
and exec_block ::
  "(string \<Rightarrow> 'v list \<Rightarrow> 'v option) \<Rightarrow> 'v stmt list \<Rightarrow> 'v fstate \<Rightarrow> 'v fstate outcome"
where
  "exec_stmt fun_sem (Nullify f) s = Normal (s\<lparr>assoc := (assoc s)(f := None)\<rparr>)"
| "exec_stmt fun_sem (Allocate f dims) s = allocate f s"
| "exec_stmt fun_sem (Deallocate f) s = deallocate f s"
| "exec_stmt fun_sem (Pointer_assign f g) s = Normal (s\<lparr>assoc := (assoc s)(f := assoc s g)\<rparr>)"
| "exec_stmt fun_sem (Refcnt_set r n) s = refcnt_set r n s"
| "exec_stmt fun_sem (Refcnt_add r k) s = refcnt_add r k s"
| "exec_stmt fun_sem (Assign f e) s = assign f (eval_expr fun_sem s e) s"
| "exec_stmt fun_sem (Call_assign f e) s = assign f (eval_expr fun_sem s e) s"
| "exec_stmt fun_sem (IfThenElse c thens elses) s =
     (case eval_cond c s of
        None \<Rightarrow> Fault
      | Some b \<Rightarrow> (if b then exec_block fun_sem thens s else exec_block fun_sem elses s))"
| "exec_stmt fun_sem (Write line) s = Normal s"
| "exec_stmt fun_sem Stop s = Stopped s"
| "exec_stmt fun_sem Blank s = Normal s"
| "exec_block fun_sem [] s = Normal s"
| "exec_block fun_sem (st # rest) s =
     (case exec_stmt fun_sem st s of
        Normal s' \<Rightarrow> exec_block fun_sem rest s'
      | Stopped s' \<Rightarrow> Stopped s'
      | Fault \<Rightarrow> Fault)"

fun apply_decl :: "decl \<Rightarrow> 'v fstate \<Rightarrow> 'v fstate" where
  "apply_decl (Declare_pointer f) s = s\<lparr>pointer_decl := (pointer_decl s)(f := True)\<rparr>"
| "apply_decl (Declare_variable f) s = s\<lparr>pointer_decl := (pointer_decl s)(f := False)\<rparr>"

definition apply_decls :: "decl list \<Rightarrow> 'v fstate \<Rightarrow> 'v fstate" where
  "apply_decls decls s = fold apply_decl decls s"

subsection \<open>Scope teardown and the reference-count invariant\<close>

text \<open>
  The loop of \<open>emit_return\<close> (and of \<open>emit_shutdown\<close>) over a symbol table, given as the
  list of its items: every variable is deinitialized in turn.
\<close>

definition emit_deinit_all :: "bool \<Rightarrow> (string \<times> symbol_kind) list \<Rightarrow> 'v stmt list" where
  "emit_deinit_all trace sym_table =
     concat (map (\<lambda>(identifier, sym_kind). emit_variable_deinit trace identifier sym_kind)
               sym_table)"

text \<open>The number of the variables of \<open>live\<close> whose pointer is associated with the buffer at \<open>p\<close>.\<close>

definition aliases :: "string list \<Rightarrow> 'v fstate \<Rightarrow> nat \<Rightarrow> nat" where
  "aliases live s p = length (filter (\<lambda>y. assoc s (Named y) = Some p) live)"

text \<open>
  The reference counts are consistent for the live variables: every associated live
  variable points to an allocated array, its reference-count pointer points to an
  allocated count whose value is the number of live variables associated with that
  array, and two live variables share the count exactly when they share the array.
\<close>

definition rc_consistent :: "string list \<Rightarrow> 'v fstate \<Rightarrow> bool" where
  "rc_consistent live s \<longleftrightarrow>
     (\<forall>x \<in> set live.
        case assoc s (Named x) of
          None \<Rightarrow> True
        | Some p \<Rightarrow>
            (case heap s p of Some (Array v) \<Rightarrow> True | _ \<Rightarrow> False)
            \<and> (case assoc s (name_refcount x) of
                  None \<Rightarrow> False
                | Some c \<Rightarrow>
                    heap s c = Some (Count (Some (int (aliases live s p))))
                    \<and> (\<forall>y \<in> set live.
                          case assoc s (Named y) of
                            None \<Rightarrow> True
                          | Some q \<Rightarrow> (assoc s (name_refcount y) = Some c) = (q = p))))"

section \<open>Properties of the reference interpreter\<close>

subsection \<open>set\_up\<close>

lemma set_up_loop_ok:
  "\<forall>key \<in> fst ` set sv. \<not> prefix ''<'' key \<Longrightarrow>
   set_up_loop sv cx = (None, cx ++ map_of (rev (map (\<lambda>(key, val). (''<state>'' @ key, val)) sv)))"
proof (induction sv arbitrary: cx)
  case Nil
  then show ?case by simp
next
  case (Cons kv sv)
  obtain key val where kv: "kv = (key, val)" by (cases kv)
  from Cons.prems kv have nk: "\<not> prefix ''<'' key" and rest: "\<forall>key \<in> fst ` set sv. \<not> prefix ''<'' key"
    by auto
  let ?xs = "rev (map (\<lambda>(key, val). (''<state>'' @ key, val)) sv)"
  have eq: "cx(''<state>'' @ key \<mapsto> val) ++ map_of ?xs
        = cx ++ map_of (rev (map (\<lambda>(key, val). (''<state>'' @ key, val)) (kv # sv)))"
    by (rule ext) (simp add: kv map_add_def split: option.splits)
  have "set_up_loop (kv # sv) cx = set_up_loop sv (cx(''<state>'' @ key \<mapsto> val))"
    using nk kv by simp
  also have "\<dots> = (None, cx(''<state>'' @ key \<mapsto> val) ++ map_of ?xs)"
    by (rule Cons.IH [OF rest])
  finally show ?case by (simp only: eq)
qed

lemma set_up_loop_err:
  "\<exists>key \<in> fst ` set sv. prefix ''<'' key \<Longrightarrow> \<exists>msg. fst (set_up_loop sv cx) = Some (ValueError msg)"
proof (induction sv arbitrary: cx)
  case Nil
  then show ?case by simp
next
  case (Cons kv sv)
  obtain key val where kv: "kv = (key, val)" by (cases kv)
  show ?case
  proof (cases "prefix ''<'' key")
    case True
    then show ?thesis by (simp add: kv)
  next
    case False
    with Cons.prems kv have "\<exists>key \<in> fst ` set sv. prefix ''<'' key" by auto
    from Cons.IH [OF this] False show ?thesis by (simp add: kv)
  qed
qed

lemma map_of_state_entry:
  assumes "distinct (map fst sv)" "(key, val) \<in> set sv"
  shows "map_of (rev (map (\<lambda>(key, val). (''<state>'' @ key, val)) sv)) (''<state>'' @ key) = Some val"
proof -
  let ?f = "\<lambda>(key, val). (''<state>'' @ key, val :: 'a)"
  have "map fst (map ?f sv) = map (\<lambda>k. ''<state>'' @ k) (map fst sv)"
    by (simp add: case_prod_unfold comp_def)
  then have "distinct (map fst (rev (map ?f sv)))"
    using assms(1) by (simp add: rev_map [symmetric] distinct_map inj_on_def)
  moreover have "(''<state>'' @ key, val) \<in> set (rev (map ?f sv))"
    using assms(2) by force
  ultimately show ?thesis by (rule map_of_is_SomeI)
qed

lemma exec_method_next_state:
  "exec_method i = Some h \<Longrightarrow> h self = Inr (r, self') \<Longrightarrow> next_state self' = next_state self"
  by (cases i)
     (auto simp: exec_method_def exec_AssignSolved_def exec_YieldState_def
        exec_AssignExpression_def exec_Raise_def exec_FailStep_def exec_If_def exec_Nop_def
        split: sum.splits option.splits if_splits)

lemma dispatch_next_state:
  "dispatch ins self = Inr (r, self') \<Longrightarrow> next_state self' = next_state self"
  by (auto simp: dispatch_def split: option.splits dest: exec_method_next_state)

lemma exec_controller_next_state:
  "exec_controller code plan executed self = (evs, exc, self') \<Longrightarrow> next_state self' = next_state self"
proof (induction code plan executed self arbitrary: evs exc self' rule: exec_controller.induct)
  case (1 code plan executed self)
  show ?case
  proof (cases "find_ready code plan executed")
    case None
    with "1.prems" show ?thesis by (simp add: exec_controller.simps)
  next
    case (Some ins)
    show ?thesis
    proof (cases "dispatch ins self")
      case (Inl e)
      with Some "1.prems" show ?thesis by (simp add: exec_controller.simps)
    next
      case (Inr p)
      obtain result self1 where p: "p = (result, self1)" by (cases p)
      obtain event new_deps where r: "(case result of None \<Rightarrow> (None, []) | Some r \<Rightarrow> r) = (event, new_deps)"
        by (cases "case result of None \<Rightarrow> (None, []) | Some r \<Rightarrow> r")
      obtain evs1 exc1 self2 where rec: "exec_controller code (plan @ new_deps) (insn_id ins # executed) self1 = (evs1, exc1, self2)"
        by (cases "exec_controller code (plan @ new_deps) (insn_id ins # executed) self1")
      from "1.IH" [OF Some Inr p [symmetric] refl r [symmetric] rec]
      have "next_state self2 = next_state self1" .
      moreover have "next_state self1 = next_state self"
        using Inr p by (auto dest: dispatch_next_state)
      moreover have "self' = self2"
        using "1.prems" Some Inr p r rec by (simp add: exec_controller.simps)
      ultimately show ?thesis by simp
    qed
  qed
qed

text \<open>
  Claim C9. For every call \<open>set_up(t_start, dt_start, state_values)\<close>: if some key of
  \<open>state_values\<close> begins with the reserved prefix \<open><\<close>, the call fails with a
  \<open>ValueError\<close>; otherwise it returns normally and the context holds \<open>t_start\<close> under
  \<open><t>\<close>, \<open>dt_start\<close> under \<open><dt>\<close>, and each value of \<open>state_values\<close> under
  \<open><state>\<close> followed by its key (the keys of a dict are distinct).
\<close>

theorem set_up_seeds_or_rejects:
  assumes "distinct (map fst state_values)"
  shows "((\<exists>key \<in> fst ` set state_values. prefix ''<'' key) \<longrightarrow>
            (\<exists>msg. fst (set_up t_start dt_start state_values self) = Some (ValueError msg)))
       \<and> ((\<forall>key \<in> fst ` set state_values. \<not> prefix ''<'' key) \<longrightarrow>
            fst (set_up t_start dt_start state_values self) = None
          \<and> ctx (snd (set_up t_start dt_start state_values self)) ''<t>'' = Some t_start
          \<and> ctx (snd (set_up t_start dt_start state_values self)) ''<dt>'' = Some dt_start
          \<and> (\<forall>(key, val) \<in> set state_values.
                ctx (snd (set_up t_start dt_start state_values self)) (''<state>'' @ key)
                  = Some val))"
proof (intro conjI impI)
  let ?c2 = "(ctx self)(''<t>'' \<mapsto> t_start, ''<dt>'' \<mapsto> dt_start)"
  have unfold: "set_up t_start dt_start state_values self
      = (fst (set_up_loop state_values ?c2), self\<lparr>ctx := snd (set_up_loop state_values ?c2)\<rparr>)"
    by (simp add: set_up_def Let_def case_prod_unfold)
  {
    assume "\<exists>key \<in> fst ` set state_values. prefix ''<'' key"
    from set_up_loop_err [OF this, of ?c2]
    show "\<exists>msg. fst (set_up t_start dt_start state_values self) = Some (ValueError msg)"
      by (simp add: unfold)
  }
  assume ok: "\<forall>key \<in> fst ` set state_values. \<not> prefix ''<'' key"
  define m where "m = map_of (rev (map (\<lambda>(key, val). (''<state>'' @ key, val)) state_values))"
  have res: "set_up t_start dt_start state_values self = (None, self\<lparr>ctx := ?c2 ++ m\<rparr>)"
    by (simp add: unfold set_up_loop_ok [OF ok] m_def)
  have keys: "dom m \<subseteq> {name. prefix ''<state>'' name}"
    by (auto simp: m_def dom_map_of_conv_image_fst)
  then have "''<t>'' \<notin> dom m" and "''<dt>'' \<notin> dom m"
    by auto
  then have nt: "m ''<t>'' = None" and ndt: "m ''<dt>'' = None"
    by auto
  show "fst (set_up t_start dt_start state_values self) = None"
    by (simp add: res)
  show "ctx (snd (set_up t_start dt_start state_values self)) ''<t>'' = Some t_start"
    by (simp add: res map_add_def nt)
  show "ctx (snd (set_up t_start dt_start state_values self)) ''<dt>'' = Some dt_start"
    by (simp add: res map_add_def ndt)
  show "\<forall>(key, val) \<in> set state_values.
          ctx (snd (set_up t_start dt_start state_values self)) (''<state>'' @ key) = Some val"
  proof (clarify)
    fix key val assume "(key, val) \<in> set state_values"
    from map_of_state_entry [OF assms this]
    have "m (''<state>'' @ key) = Some val" by (simp only: m_def)
    then show "ctx (snd (set_up t_start dt_start state_values self)) (''<state>'' @ key) = Some val"
      by (simp add: res map_add_def)
  qed
qed

theorem set_up_seeds_or_rejects_witness:
  "distinct (map fst [(''x'', 5::int)]) \<and> distinct (map fst [(''<p>x'', 5::int)])
   \<and> (\<exists>msg. fst (set_up 0 1 [(''<p>x'', 5::int)] (NumpyInterpreter stepping_code Map.empty))
              = Some (ValueError msg))
   \<and> fst (set_up 0 1 [(''x'', 5::int)] (NumpyInterpreter stepping_code Map.empty)) = None
   \<and> ctx (snd (set_up 0 1 [(''x'', 5::int)] (NumpyInterpreter stepping_code Map.empty))) ''<t>''
       = Some 0
   \<and> ctx (snd (set_up 0 1 [(''x'', 5::int)] (NumpyInterpreter stepping_code Map.empty))) ''<dt>''
       = Some 1
   \<and> ctx (snd (set_up 0 1 [(''x'', 5::int)] (NumpyInterpreter stepping_code Map.empty)))
         ''<state>x'' = Some 5"
proof -
  have d1: "distinct (map fst [(''x'', 5::int)])" by simp
  have d2: "distinct (map fst [(''<p>x'', 5::int)])" by simp
  show ?thesis
    using set_up_seeds_or_rejects [OF d1, of 0 1 "NumpyInterpreter stepping_code Map.empty"]
      set_up_seeds_or_rejects [OF d2, of 0 1 "NumpyInterpreter stepping_code Map.empty"]
    by simp
qed

subsection \<open>The successor state\<close>

text \<open>
  Claim C10. The successor state comes from the state table alone: \<open>run_single_step\<close>
  starts the controller on an interpreter whose next state is already the declared
  successor of the current state, and the next state after the step is that successor
  whatever the step does; no \<open>exec_*\<close> handler changes the next state; and the class has
  a method for every instruction kind except \<open>StateTransition\<close>, for which it has none.
\<close>

theorem next_state_from_state_table:
  "(states code (next_state self) = Some cur_state \<longrightarrow>
      run_single_step code self
        = (let (evs, exc, self') =
                 exec_controller code (st_depends_on cur_state) []
                   (self\<lparr>next_state := st_next_state cur_state\<rparr>)
           in (evs, exc, self'\<lparr>ctx := discard_transient (ctx self')\<rparr>))
    \<and> next_state (snd (snd (run_single_step code self))) = st_next_state cur_state)
   \<and> (\<forall>handler result self'.
         exec_method i = Some handler \<and> handler self = Inr (result, self') \<longrightarrow>
         next_state self' = next_state self)
   \<and> (exec_method i = None \<longleftrightarrow> (\<exists>target_state. i = StateTransition target_state))"
proof (intro conjI impI allI)
  assume cur: "states code (next_state self) = Some cur_state"
  show "run_single_step code self
        = (let (evs, exc, self') =
                 exec_controller code (st_depends_on cur_state) []
                   (self\<lparr>next_state := st_next_state cur_state\<rparr>)
           in (evs, exc, self'\<lparr>ctx := discard_transient (ctx self')\<rparr>))"
    by (simp add: run_single_step_def cur)
  obtain evs exc self' where
    c: "exec_controller code (st_depends_on cur_state) []
          (self\<lparr>next_state := st_next_state cur_state\<rparr>) = (evs, exc, self')"
    by (cases "exec_controller code (st_depends_on cur_state) []
          (self\<lparr>next_state := st_next_state cur_state\<rparr>)")
  from exec_controller_next_state [OF c]
  show "next_state (snd (snd (run_single_step code self))) = st_next_state cur_state"
    by (simp add: run_single_step_def cur c)
next
  fix handler result self'
  assume "exec_method i = Some handler \<and> handler self = Inr (result, self')"
  then show "next_state self' = next_state self"
    by (auto dest: exec_method_next_state)
next
  show "exec_method i = None \<longleftrightarrow> (\<exists>target_state. i = StateTransition target_state)"
    by (cases i) (simp_all add: exec_method_def)
qed

theorem next_state_from_state_table_witness:
  "states stepping_code (next_state (started stepping_code))
     = Some \<lparr>st_depends_on = [''init''], st_next_state = ''primary''\<rparr>
   \<and> next_state (snd (snd (run_single_step stepping_code (started stepping_code)))) = ''primary''
   \<and> exec_method (AssignExpression ''<p>k'' (Constant_expr (1::int)))
        = Some (exec_AssignExpression ''<p>k'' (Constant_expr 1))
   \<and> exec_AssignExpression ''<p>k'' (Constant_expr 1) (started stepping_code)
        = Inr (None, (started stepping_code)\<lparr>ctx := (ctx (started stepping_code))(''<p>k'' \<mapsto> 1)\<rparr>)
   \<and> next_state ((started stepping_code)\<lparr>ctx := (ctx (started stepping_code))(''<p>k'' \<mapsto> 1)\<rparr>)
        = next_state (started stepping_code)
   \<and> exec_method (StateTransition ''primary'' :: int insn) = None"
proof -
  have st: "states stepping_code (next_state (started stepping_code))
     = Some \<lparr>st_depends_on = [''init''], st_next_state = ''primary''\<rparr>"
    by (simp add: stepping_code_def started_def set_up_def NumpyInterpreter_def)
  have m: "exec_method (AssignExpression ''<p>k'' (Constant_expr (1::int)))
        = Some (exec_AssignExpression ''<p>k'' (Constant_expr 1))"
    by (simp add: exec_method_def)
  have r: "exec_AssignExpression ''<p>k'' (Constant_expr 1) (started stepping_code)
        = Inr (None, (started stepping_code)\<lparr>ctx := (ctx (started stepping_code))(''<p>k'' \<mapsto> 1)\<rparr>)"
    by (simp add: exec_AssignExpression_def Constant_expr_def)
  show ?thesis
    using next_state_from_state_table
      [of stepping_code "started stepping_code"
          "\<lparr>st_depends_on = [''init''], st_next_state = ''primary''\<rparr>"
          "AssignExpression ''<p>k'' (Constant_expr 1)"]
      next_state_from_state_table
      [of stepping_code "started stepping_code"
          "\<lparr>st_depends_on = [''init''], st_next_state = ''primary''\<rparr>"
          "StateTransition ''primary''"]
      st m r
    by simp
qed

subsection \<open>Transient variables\<close>

lemma discard_transient_dom: "discard_transient c name = Some v \<Longrightarrow> permanent name"
  by (auto simp: discard_transient_def permanent_def split: if_splits)

lemma discard_transient_keeps: "permanent name \<Longrightarrow> discard_transient c name = c name"
  by (auto simp: discard_transient_def permanent_def)

text \<open>
  Claim C8. After each step, however it ends, every key of the context is a
  persistent-state variable (prefix \<open><p>\<close>), an ODE-component state variable (prefix
  \<open><state>\<close>) or one of \<open><t>\<close> and \<open><dt>\<close>: every other key has been deleted; the
  \<open>finally\<close> clause deletes none of those four kinds.
\<close>

theorem transient_variables_cleared:
  "(\<forall>name \<in> dom (ctx (snd (snd (run_single_step code self)))).
       prefix ''<p>'' name \<or> prefix ''<state>'' name \<or> name = ''<t>'' \<or> name = ''<dt>'')
   \<and> (\<forall>name. prefix ''<p>'' name \<or> prefix ''<state>'' name \<or> name = ''<t>'' \<or> name = ''<dt>''
         \<longrightarrow> discard_transient c name = c name)"
proof (intro conjI ballI allI impI)
  fix name assume "name \<in> dom (ctx (snd (snd (run_single_step code self))))"
  then obtain v where "ctx (snd (snd (run_single_step code self))) name = Some v"
    by auto
  then have "permanent name"
    by (auto simp: run_single_step_def Let_def case_prod_unfold dest: discard_transient_dom)
  then show "prefix ''<p>'' name \<or> prefix ''<state>'' name \<or> name = ''<t>'' \<or> name = ''<dt>''"
    by (auto simp: permanent_def)
next
  fix name
  assume "prefix ''<p>'' name \<or> prefix ''<state>'' name \<or> name = ''<t>'' \<or> name = ''<dt>''"
  then have "permanent name" by (auto simp: permanent_def)
  then show "discard_transient c name = c name" by (rule discard_transient_keeps)
qed

theorem transient_variables_cleared_witness:
  "''<state>x'' \<in> dom (ctx (snd (snd (run_single_step stepping_code
      ((started stepping_code)\<lparr>next_state := ''primary'',
          ctx := (ctx (started stepping_code))(''<p>k'' \<mapsto> 1)\<rparr>)))))
   \<and> prefix ''<state>'' ''<state>x''
   \<and> ctx (snd (snd (run_single_step stepping_code
      ((started stepping_code)\<lparr>next_state := ''primary'',
          ctx := (ctx (started stepping_code))(''<p>k'' \<mapsto> 1)\<rparr>)))) ''tmp'' = None
   \<and> discard_transient [''tmp'' \<mapsto> 6, ''<state>x'' \<mapsto> (6::int)] ''<state>x'' = Some 6"
proof -
  let ?self = "(started stepping_code)\<lparr>next_state := ''primary'',
          ctx := (ctx (started stepping_code))(''<p>k'' \<mapsto> 1)\<rparr>"
  have x: "ctx (snd (snd (run_single_step stepping_code ?self))) ''<state>x'' = Some 6"
    by code_simp
  have tmp: "ctx (snd (snd (run_single_step stepping_code ?self))) ''tmp'' = None"
    by code_simp
  from x have d: "''<state>x'' \<in> dom (ctx (snd (snd (run_single_step stepping_code ?self))))"
    by blast
  show ?thesis
    using transient_variables_cleared
      [of stepping_code ?self "[''tmp'' \<mapsto> 6, ''<state>x'' \<mapsto> (6::int)]"] d tmp
    by simp
qed

subsection \<open>Events of a step\<close>

lemma exec_method_event:
  "exec_method i = Some h \<Longrightarrow> h self = Inr (Some (Some ev, new_deps), self')
   \<Longrightarrow> is_StateComputed ev"
  by (cases i)
     (auto simp: exec_method_def exec_AssignSolved_def exec_YieldState_def
        exec_AssignExpression_def exec_Raise_def exec_FailStep_def exec_If_def exec_Nop_def
        is_StateComputed_def
        split: sum.splits option.splits if_splits)

lemma dispatch_event:
  "dispatch ins self = Inr (Some (Some ev, new_deps), self') \<Longrightarrow> is_StateComputed ev"
  by (auto simp: dispatch_def split: option.splits dest: exec_method_event)

lemma exec_controller_events:
  "exec_controller code plan executed self = (evs, exc, self')
   \<Longrightarrow> list_all is_StateComputed evs"
proof (induction code plan executed self arbitrary: evs exc self' rule: exec_controller.induct)
  case (1 code plan executed self)
  show ?case
  proof (cases "find_ready code plan executed")
    case None
    with "1.prems" show ?thesis by (simp add: exec_controller.simps)
  next
    case (Some ins)
    show ?thesis
    proof (cases "dispatch ins self")
      case (Inl e)
      with Some "1.prems" show ?thesis by (simp add: exec_controller.simps)
    next
      case (Inr p)
      obtain result self1 where p: "p = (result, self1)" by (cases p)
      obtain event new_deps where
        r: "(case result of None \<Rightarrow> (None, []) | Some r \<Rightarrow> r) = (event, new_deps)"
        by (cases "case result of None \<Rightarrow> (None, []) | Some r \<Rightarrow> r")
      obtain evs1 exc1 self2 where
        rec: "exec_controller code (plan @ new_deps) (insn_id ins # executed) self1
              = (evs1, exc1, self2)"
        by (cases "exec_controller code (plan @ new_deps) (insn_id ins # executed) self1")
      from "1.IH" [OF Some Inr p [symmetric] refl r [symmetric] rec]
      have tail: "list_all is_StateComputed evs1" .
      have evs: "evs = (case event of None \<Rightarrow> [] | Some ev \<Rightarrow> [ev]) @ evs1"
        using "1.prems" Some Inr p r rec by (simp add: exec_controller.simps)
      have "list_all is_StateComputed (case event of None \<Rightarrow> [] | Some ev \<Rightarrow> [ev])"
      proof (cases event)
        case None
        then show ?thesis by simp
      next
        case (Some ev)
        with r have "result = Some (Some ev, new_deps)"
          by (cases result) auto
        with Inr p have "dispatch ins self = Inr (Some (Some ev, new_deps), self1)"
          by simp
        from dispatch_event [OF this] Some show ?thesis by simp
      qed
      with tail evs show ?thesis by simp
    qed
  qed
qed

lemma run_single_step_events: "list_all is_StateComputed (fst (run_single_step code self))"
proof (cases "states code (next_state self)")
  case None
  then show ?thesis by (simp add: run_single_step_def)
next
  case (Some cur_state)
  obtain evs exc self' where
    c: "exec_controller code (st_depends_on cur_state) []
          (self\<lparr>next_state := st_next_state cur_state\<rparr>) = (evs, exc, self')"
    by (cases "exec_controller code (st_depends_on cur_state) []
          (self\<lparr>next_state := st_next_state cur_state\<rparr>)")
  from exec_controller_events [OF c] show ?thesis
    by (simp add: run_single_step_def Some c)
qed

lemma StateComputed_not_step_event:
  "list_all is_StateComputed evs \<Longrightarrow>
   filter is_StepCompleted evs = [] \<and> filter is_StepFailed evs = []"
  by (induction evs)
     (auto simp: is_StateComputed_def is_StepCompleted_def is_StepFailed_def
        split: event.splits)

lemma run_loop_Suc_reject:
  assumes "t_end_reached t_end self = Inr False"
    and "\<not> max_steps_reached max_steps n_steps"
    and "fst (snd (run_single_step code self)) = Some FailStepException"
    and "ctx (snd (snd (run_single_step code self))) ''<t>'' = Some t"
  shows "run_loop (Suc k) code t_end max_steps n_steps self
         = (fst (run_single_step code self) @ [StepFailed t]
              @ fst (run_loop k code t_end max_steps n_steps (snd (snd (run_single_step code self)))),
            snd (run_loop k code t_end max_steps n_steps (snd (snd (run_single_step code self)))))"
  using assms by (simp add: Let_def case_prod_unfold lookup_t_def)

lemma run_loop_Suc_complete:
  assumes "t_end_reached t_end self = Inr False"
    and "\<not> max_steps_reached max_steps n_steps"
    and "fst (snd (run_single_step code self)) = None"
    and "ctx (snd (snd (run_single_step code self))) ''<t>'' = Some t"
  shows "run_loop (Suc k) code t_end max_steps n_steps self
         = (fst (run_single_step code self)
              @ [StepCompleted t (next_state self) (next_state (snd (snd (run_single_step code self))))]
              @ fst (run_loop k code t_end max_steps (n_steps + 1)
                       (snd (snd (run_single_step code self)))),
            snd (run_loop k code t_end max_steps (n_steps + 1)
                   (snd (snd (run_single_step code self)))))"
  using assms by (simp add: Let_def case_prod_unfold lookup_t_def)

lemma is_step_event_simps:
  "is_StepCompleted (StepCompleted t cur nxt)" "\<not> is_StepCompleted (StepFailed t)"
  "is_StepFailed (StepFailed t)" "\<not> is_StepFailed (StepCompleted t cur nxt)"
  by (simp_all add: is_StepCompleted_def is_StepFailed_def)

lemma run_loop_completed_bound:
  "int (length (filter is_StepCompleted (fst (run_loop k code t_end (Some m) n_steps self))))
   \<le> max 0 (m - n_steps)"
proof (induction k arbitrary: n_steps self)
  case 0
  show ?case by simp
next
  case (Suc k)
  let ?R = "run_single_step code self"
  have nc: "filter is_StepCompleted (fst ?R) = []"
    using run_single_step_events [of code self] StateComputed_not_step_event by blast
  have ih1: "int (length (filter is_StepCompleted
                (fst (run_loop k code t_end (Some m) n_steps (snd (snd ?R))))))
             \<le> max 0 (m - n_steps)"
    by (rule Suc.IH)
  have ih2: "int (length (filter is_StepCompleted
                (fst (run_loop k code t_end (Some m) (n_steps + 1) (snd (snd ?R))))))
             \<le> max 0 (m - (n_steps + 1))"
    by (rule Suc.IH)
  show ?case
    using nc ih1 ih2
    by (auto simp: Let_def case_prod_unfold max_steps_reached_def is_step_event_simps
          split: sum.splits bool.splits option.splits error.splits)
qed

lemma run_loop_running_iterations:
  "fst (snd (run_loop k code t_end max_steps n_steps self)) = Running \<Longrightarrow>
   k = length (filter is_StepCompleted (fst (run_loop k code t_end max_steps n_steps self)))
     + length (filter is_StepFailed (fst (run_loop k code t_end max_steps n_steps self)))"
proof (induction k arbitrary: n_steps self)
  case 0
  show ?case by simp
next
  case (Suc k)
  let ?R = "run_single_step code self"
  have nc: "filter is_StepCompleted (fst ?R) = []" and nf: "filter is_StepFailed (fst ?R) = []"
    using run_single_step_events [of code self] StateComputed_not_step_event by blast+
  note ih1 = Suc.IH [of n_steps "snd (snd ?R)"]
  note ih2 = Suc.IH [of "n_steps + 1" "snd (snd ?R)"]
  show ?case
    using Suc.prems nc nf ih1 ih2
    by (auto simp: Let_def case_prod_unfold is_step_event_simps
          split: sum.splits bool.splits option.splits error.splits if_splits)
qed

subsection \<open>Rejected steps\<close>

text \<open>
  Claim C1, as stated, fails. In \<open>rejecting_code\<close> the step advances the time, yields the
  state and then dispatches \<open>FailStep\<close>: the consumer of \<open>run\<close> receives the
  \<open>StateComputed\<close> event of the rejected attempt before its \<open>StepFailed\<close> event, and
  the time has advanced from 0 to 1.
\<close>

theorem rejected_step_discards_events_counterexample:
  "fst (run 1 rejecting_code None None (started rejecting_code))
     = [StateComputed 1 ''final'' ''x'' 5, StepFailed 1]
   \<and> ctx (started rejecting_code) ''<t>'' = Some 0
   \<and> ctx (snd (snd (run 1 rejecting_code None None (started rejecting_code)))) ''<t>'' = Some 1"
proof (intro conjI)
  show "fst (run 1 rejecting_code None None (started rejecting_code))
     = [StateComputed 1 ''final'' ''x'' 5, StepFailed 1]"
    by code_simp
  show "ctx (started rejecting_code) ''<t>'' = Some 0"
    by code_simp
  show "ctx (snd (snd (run 1 rejecting_code None None (started rejecting_code)))) ''<t>'' = Some 1"
    by code_simp
qed

text \<open>
  Claim C1, amended. A \<open>FailStep\<close> instruction, once dispatched, raises the
  step-rejection signal. For every step attempt that ends with this signal, \<open>run\<close>
  yields the events of the attempt produced before the rejection (all of them
  \<open>StateComputed\<close> events, none discarded), then a single \<open>StepFailed\<close> event carrying the
  current \<open><t>\<close> and no \<open>StepCompleted\<close> event for the attempt, and continues with the
  same step count from the interpreter the attempt left behind.
\<close>

theorem rejected_step_yields_StepFailed:
  fixes code :: "('v::{zero,linorder}) code"
  assumes "t_end_reached t_end self = Inr False"
    and "\<not> max_steps_reached max_steps n_steps"
    and "fst (snd (run_single_step code self)) = Some FailStepException"
    and "ctx (snd (snd (run_single_step code self))) ''<t>'' = Some t"
  shows "fst (run_loop (Suc k) code t_end max_steps n_steps self)
           = fst (run_single_step code self) @ [StepFailed t]
               @ fst (run_loop k code t_end max_steps n_steps
                        (snd (snd (run_single_step code self))))
       \<and> snd (run_loop (Suc k) code t_end max_steps n_steps self)
           = snd (run_loop k code t_end max_steps n_steps (snd (snd (run_single_step code self))))
       \<and> list_all is_StateComputed (fst (run_single_step code self))
       \<and> (\<forall>ins s. body ins = FailStep \<longrightarrow>
             dispatch (ins :: 'v instruction) (s :: 'v interp) = Inl FailStepException)"
proof (intro conjI allI impI)
  show "fst (run_loop (Suc k) code t_end max_steps n_steps self)
           = fst (run_single_step code self) @ [StepFailed t]
               @ fst (run_loop k code t_end max_steps n_steps
                        (snd (snd (run_single_step code self))))"
    unfolding run_loop_Suc_reject [OF assms] by simp
  show "snd (run_loop (Suc k) code t_end max_steps n_steps self)
           = snd (run_loop k code t_end max_steps n_steps (snd (snd (run_single_step code self))))"
    unfolding run_loop_Suc_reject [OF assms] by simp
  show "list_all is_StateComputed (fst (run_single_step code self))"
    by (rule run_single_step_events)
next
  fix ins :: "'v instruction" and s :: "'v interp"
  assume "body ins = FailStep"
  then show "dispatch ins s = Inl FailStepException"
    by (simp add: dispatch_def exec_method_def exec_FailStep_def)
qed

theorem rejected_step_yields_StepFailed_witness:
  "t_end_reached None (started rejecting_code) = Inr False
   \<and> \<not> max_steps_reached None 0
   \<and> fst (snd (run_single_step rejecting_code (started rejecting_code))) = Some FailStepException
   \<and> ctx (snd (snd (run_single_step rejecting_code (started rejecting_code)))) ''<t>'' = Some 1
   \<and> body \<lparr>insn_id = ''fail'', depends_on = [''yield''], body = FailStep :: int insn\<rparr> = FailStep
   \<and> fst (run_loop (Suc 0) rejecting_code None None 0 (started rejecting_code))
        = fst (run_single_step rejecting_code (started rejecting_code)) @ [StepFailed 1]
   \<and> dispatch \<lparr>insn_id = ''fail'', depends_on = [''yield''], body = FailStep :: int insn\<rparr>
        (started rejecting_code) = Inl FailStepException"
proof -
  have a: "t_end_reached None (started rejecting_code) = Inr False"
    by (simp add: t_end_reached_def)
  have b: "\<not> max_steps_reached None 0"
    by (simp add: max_steps_reached_def)
  have c: "fst (snd (run_single_step rejecting_code (started rejecting_code)))
           = Some FailStepException"
    by code_simp
  have d: "ctx (snd (snd (run_single_step rejecting_code (started rejecting_code)))) ''<t>''
           = Some 1"
    by code_simp
  show ?thesis
    using rejected_step_yields_StepFailed [OF a b c d, of 0] a b c d
    by simp
qed

subsection \<open>Bounds on a run\<close>

text \<open>
  Claim C4, as stated, fails: a rejected attempt does not count as a step. With
  \<open>max_steps = 1\<close> the run of \<open>rejecting_code\<close> has made three attempts after three
  iterations and has not returned.
\<close>

theorem run_max_steps_counts_attempts_counterexample:
  "fst (run 3 rejecting_code None (Some 1) (started rejecting_code))
     = [StateComputed 1 ''final'' ''x'' 5, StepFailed 1,
        StateComputed 2 ''final'' ''x'' 5, StepFailed 2,
        StateComputed 3 ''final'' ''x'' 5, StepFailed 3]
   \<and> fst (snd (run 3 rejecting_code None (Some 1) (started rejecting_code))) = Running"
proof (intro conjI)
  show "fst (run 3 rejecting_code None (Some 1) (started rejecting_code))
     = [StateComputed 1 ''final'' ''x'' 5, StepFailed 1,
        StateComputed 2 ''final'' ''x'' 5, StepFailed 2,
        StateComputed 3 ''final'' ''x'' 5, StepFailed 3]"
    by code_simp
  show "fst (snd (run 3 rejecting_code None (Some 1) (started rejecting_code))) = Running"
    by code_simp
qed

text \<open>
  Claim C4, amended. When \<open>max_steps\<close> is given, \<open>run\<close> yields at most \<open>max_steps\<close>
  \<open>StepCompleted\<close> events; every iteration that does not end the run yields exactly one
  \<open>StepCompleted\<close> or \<open>StepFailed\<close> event, so a run that has not ended after \<open>k\<close>
  iterations has performed at most \<open>max_steps\<close> completed steps plus its rejected
  attempts, which are not counted against \<open>max_steps\<close>; and an iteration that begins
  with the time at or beyond \<open>t_end\<close>, or with \<open>max_steps\<close> completed steps, returns at
  once, yielding nothing.
\<close>

theorem run_bounded_by_completed_steps:
  "int (length (filter is_StepCompleted (fst (run k code t_end (Some m) self)))) \<le> max 0 m
   \<and> (fst (snd (run k code t_end max_steps self)) = Running \<longrightarrow>
        k = length (filter is_StepCompleted (fst (run k code t_end max_steps self)))
          + length (filter is_StepFailed (fst (run k code t_end max_steps self))))
   \<and> (fst (snd (run k code t_end (Some m) self)) = Running \<longrightarrow>
        int k \<le> max 0 m
                 + int (length (filter is_StepFailed (fst (run k code t_end (Some m) self)))))
   \<and> (t_end_reached t_end self = Inr True \<longrightarrow>
        run_loop (Suc k) code t_end max_steps n_steps self = ([], Returned, self))
   \<and> (t_end_reached t_end self = Inr False \<and> max_steps_reached max_steps n_steps \<longrightarrow>
        run_loop (Suc k) code t_end max_steps n_steps self = ([], Returned, self))"
proof (intro conjI impI)
  show bound: "int (length (filter is_StepCompleted (fst (run k code t_end (Some m) self))))
               \<le> max 0 m"
    using run_loop_completed_bound [of k code t_end m 0 self] by (simp add: run_def)
  show "k = length (filter is_StepCompleted (fst (run k code t_end max_steps self)))
          + length (filter is_StepFailed (fst (run k code t_end max_steps self)))"
    if "fst (snd (run k code t_end max_steps self)) = Running"
    using that run_loop_running_iterations [of k code t_end max_steps 0 self]
    by (simp add: run_def)
  show "int k \<le> max 0 m
                 + int (length (filter is_StepFailed (fst (run k code t_end (Some m) self))))"
    if "fst (snd (run k code t_end (Some m) self)) = Running"
    using that run_loop_running_iterations [of k code t_end "Some m" 0 self] bound
    by (simp add: run_def)
  show "run_loop (Suc k) code t_end max_steps n_steps self = ([], Returned, self)"
    if "t_end_reached t_end self = Inr True"
    using that by simp
  show "run_loop (Suc k) code t_end max_steps n_steps self = ([], Returned, self)"
    if "t_end_reached t_end self = Inr False \<and> max_steps_reached max_steps n_steps"
    using that by simp
qed

theorem run_bounded_by_completed_steps_witness:
  "fst (snd (run 2 stepping_code None (Some 3) (started stepping_code))) = Running
   \<and> (2::nat) = length (filter is_StepCompleted
                          (fst (run 2 stepping_code None (Some 3) (started stepping_code))))
                 + length (filter is_StepFailed
                          (fst (run 2 stepping_code None (Some 3) (started stepping_code))))
   \<and> int (length (filter is_StepCompleted
                    (fst (run 2 stepping_code None (Some 3) (started stepping_code))))) \<le> 3
   \<and> t_end_reached (Some 0) (started stepping_code) = Inr True
   \<and> run_loop (Suc 2) stepping_code (Some 0) (Some 3) 0 (started stepping_code)
       = ([], Returned, started stepping_code)
   \<and> t_end_reached (Some 2) (started stepping_code) = Inr False
   \<and> max_steps_reached (Some 3) 3
   \<and> run_loop (Suc 2) stepping_code (Some 2) (Some 3) 3 (started stepping_code)
       = ([], Returned, started stepping_code)"
proof -
  have r: "fst (snd (run 2 stepping_code None (Some 3) (started stepping_code))) = Running"
    by code_simp
  have t0: "t_end_reached (Some 0) (started stepping_code) = Inr True"
    by code_simp
  have t2: "t_end_reached (Some 2) (started stepping_code) = Inr False"
    by code_simp
  have ms: "max_steps_reached (Some 3) 3"
    by (simp add: max_steps_reached_def)
  show ?thesis
    using run_bounded_by_completed_steps [of 2 stepping_code None 3 "started stepping_code" "Some 3" 0]
      run_bounded_by_completed_steps [of 2 stepping_code "Some 0" 3 "started stepping_code" "Some 3" 0]
      run_bounded_by_completed_steps [of 2 stepping_code "Some 2" 3 "started stepping_code" "Some 3" 3]
      r t0 t2 ms
    by simp
qed

end
